theory Spec2Isabelle
  imports Main
begin

section \<open>Data model\<close>

text \<open>
  The records that flow through \<open>copyCases\<close>. A data value, an event, a catalog entry, an
  organisation unit and an outbreak have the fields the code reads; a field read that may
  yield \<open>undefined\<close> in JavaScript is an \<open>option\<close>, with \<open>None\<close> for \<open>undefined\<close>.
  Identifiers and data values are strings, as the two platforms deliver them.
\<close>

datatype error = TypeError

record dataValue =
  dataElement :: string
  dv_value :: "string option"
  displayName :: "string option"

record event =
  programStage :: string
  dataValues :: "dataValue list option"

record catalogEntry =
  de_id :: string
  de_displayName :: "string option"

record orgUnit =
  ou_id :: string
  parent :: "string option"

record outbreakRec =
  ob_id :: string
  locationIds :: "string list"

text \<open>
  A tracked entity instance is a JavaScript object whose properties are set by name
  (\<open>R.assoc\<close> with a computed key), so it is a map from property names to values. A
  value is \<open>undefined\<close>, a string, the event list, or a list of data values. Two objects
  are equal when they hold the same values under the same names, which is what
  \<open>R.equals\<close> compares; the enumeration order of the properties is not part of the model.
\<close>

datatype val = Undef | Str string | Events "event list" | Stage "dataValue list"

type_synonym obj = "string \<rightharpoonup> val"

text \<open>\<open>R.prop\<close> and the member access \<open>te.name\<close>: a missing property reads as \<open>undefined\<close>.\<close>

definition propOf :: "string \<Rightarrow> obj \<Rightarrow> val" where
  "propOf name ob = (case ob name of None \<Rightarrow> Undef | Some v \<Rightarrow> v)"

text \<open>\<open>R.assoc\<close>: a copy of the object with one property set.\<close>

definition assoc :: "string \<Rightarrow> val \<Rightarrow> obj \<Rightarrow> obj" where
  "assoc name v ob = ob(name \<mapsto> v)"

text \<open>The \<open>length\<close> member: reading it from \<open>undefined\<close> raises a \<open>TypeError\<close>.\<close>

fun lengthOf :: "val \<Rightarrow> error + nat" where
  "lengthOf Undef = Inl TypeError"
| "lengthOf (Str s) = Inr (length s)"
| "lengthOf (Events es) = Inr (length es)"
| "lengthOf (Stage dvs) = Inr (length dvs)"

text \<open>Sequential composition of two steps either of which may raise (\<open>R.pipe\<close>).\<close>

definition pipe2 :: "('a \<Rightarrow> error + 'b) \<Rightarrow> ('b \<Rightarrow> error + 'c) \<Rightarrow> 'a \<Rightarrow> error + 'c" where
  "pipe2 f g x = (case f x of Inl e \<Rightarrow> Inl e | Inr y \<Rightarrow> g y)"

section \<open>Event enrichment\<close>

text \<open>
  \<open>findAndTransformEvent\<close>: \<open>R.find\<close> over the event list for the first event of the
  program stage, \<open>R.prop\<close> of its data values, \<open>R.defaultTo([])\<close>, and \<open>R.map\<close> attaching
  the display name of the first catalog entry with the data value's element id. The
  program-stage id is an \<open>option\<close>: \<open>None\<close> is \<open>undefined\<close>, which no event's stage equals.
  \<open>R.find\<close> raises on \<open>undefined\<close>; over a string or a list of data values it finds nothing,
  since their elements have no \<open>programStage\<close> property. When no event is found \<open>R.find\<close>
  yields \<open>undefined\<close>, of which \<open>R.prop\<close> is \<open>undefined\<close> again.
\<close>

definition findEvent :: "string option \<Rightarrow> val \<Rightarrow> error + event option" where
  "findEvent programID events =
     (case events of
        Undef \<Rightarrow> Inl TypeError
      | Events es \<Rightarrow> Inr (find (\<lambda>e. Some (programStage e) = programID) es)
      | Str s \<Rightarrow> Inr None
      | Stage dvs \<Rightarrow> Inr None)"

definition addDisplayName :: "catalogEntry list \<Rightarrow> dataValue \<Rightarrow> dataValue" where
  "addDisplayName dataElements dv =
     dv\<lparr>displayName :=
          (case find (\<lambda>d. de_id d = dataElement dv) dataElements of
             None \<Rightarrow> None
           | Some d \<Rightarrow> de_displayName d)\<rparr>"

definition findAndTransformEvent ::
  "catalogEntry list \<Rightarrow> string option \<Rightarrow> val \<Rightarrow> error + dataValue list" where
  "findAndTransformEvent dataElements programID events =
     (case findEvent programID events of
        Inl e \<Rightarrow> Inl e
      | Inr found \<Rightarrow>
          Inr (map (addDisplayName dataElements)
                (case (case found of None \<Rightarrow> None | Some ev \<Rightarrow> dataValues ev) of
                   None \<Rightarrow> []
                 | Some dvs \<Rightarrow> dvs)))"

definition addEvent :: "catalogEntry list \<Rightarrow> string \<Rightarrow> string option \<Rightarrow> obj \<Rightarrow> error + obj" where
  "addEvent dataElements eventName programStageID te =
     (case findAndTransformEvent dataElements programStageID (propOf ''events'' te) of
        Inl e \<Rightarrow> Inl e
      | Inr ev \<Rightarrow> Inr (assoc eventName (Stage ev) te))"

section \<open>Lab result and case classification\<close>

text \<open>
  \<open>findDataValueByID\<close>: \<open>R.find\<close> over \<open>dataValues || []\<close>. Anything but a list of data
  values holds no element with a \<open>dataElement\<close> property, so nothing is found there.
\<close>

definition findDataValueByID :: "val \<Rightarrow> string \<Rightarrow> dataValue option" where
  "findDataValueByID dvs ident =
     (case dvs of
        Stage xs \<Rightarrow> find (\<lambda>d. dataElement d = ident) xs
      | Undef \<Rightarrow> None
      | Str s \<Rightarrow> None
      | Events es \<Rightarrow> None)"

text \<open>
  \<open>checkDataValue\<close>: \<open>R.propEq('value', value, found || {})\<close>. The \<open>value\<close> of the empty
  object is \<open>undefined\<close>, which equals no expected string.
\<close>

definition checkDataValue :: "val \<Rightarrow> string \<Rightarrow> string \<Rightarrow> bool" where
  "checkDataValue dvs de v =
     ((case findDataValueByID dvs de of None \<Rightarrow> None | Some d \<Rightarrow> dv_value d) = Some v)"

text \<open>\<open>checkDataValuesConditions\<close>: \<open>R.allPass\<close> of one predicate per condition pair.\<close>

definition checkDataValuesConditions :: "(string \<times> string) list \<Rightarrow> obj \<Rightarrow> bool" where
  "checkDataValuesConditions conditions te =
     list_all (\<lambda>p. p te)
       (map (\<lambda>(de, v). \<lambda>te. checkDataValue (propOf ''labResultStage'' te) de v) conditions)"

text \<open>
  The guard of \<open>addLabResult\<close> is \<open>_ !== []\<close>. The array literal allocates a new array at
  every evaluation and \<open>!==\<close> compares object identity, so the comparison holds for every
  value, the empty list included.
\<close>

definition notIdenticalToNewArray :: "val \<Rightarrow> bool" where
  "notIdenticalToNewArray x = True"

definition propSatisfies :: "(val \<Rightarrow> bool) \<Rightarrow> string \<Rightarrow> obj \<Rightarrow> bool" where
  "propSatisfies p name ob = p (propOf name ob)"

definition addLabResult :: "(string \<times> string) list \<Rightarrow> obj \<Rightarrow> obj" where
  "addLabResult confirmedTestConditions te =
     (if propSatisfies notIdenticalToNewArray ''labResultStage'' te
      then assoc ''labResult''
             (Str (if checkDataValuesConditions confirmedTestConditions te
                   then ''POSITIVE'' else ''NEGATIVE'')) te
      else te)"

text \<open>
  \<open>addCaseClassification\<close>: the nested conditional expression, evaluated as JavaScript
  does: \<open>&&\<close> reads \<open>labResultStage.length\<close> only when the lab result is \<open>NEGATIVE\<close>, and
  \<open>labRequestStage.length\<close> is read only when the first two tests fail.
\<close>

definition classify :: "obj \<Rightarrow> error + string" where
  "classify te =
     (if propOf ''labResult'' te = Str ''POSITIVE'' then Inr ''CONFIRMED''
      else
        (case (if propOf ''labResult'' te = Str ''NEGATIVE''
               then (case lengthOf (propOf ''labResultStage'' te) of
                       Inl e \<Rightarrow> Inl e
                     | Inr n \<Rightarrow> Inr (0 < n))
               else Inr False) of
           Inl e \<Rightarrow> Inl e
         | Inr True \<Rightarrow> Inr ''NOT_A_CASE_DISCARDED''
         | Inr False \<Rightarrow>
             (case lengthOf (propOf ''labRequestStage'' te) of
                Inl e \<Rightarrow> Inl e
              | Inr n \<Rightarrow> Inr (if 0 < n then ''PROBABLE'' else ''SUSPECT''))))"

definition addCaseClassification :: "obj \<Rightarrow> error + obj" where
  "addCaseClassification te =
     (case classify te of
        Inl e \<Rightarrow> Inl e
      | Inr c \<Rightarrow> Inr (assoc ''caseClassification'' (Str c) te))"

text \<open>
  \<open>addLabInformation\<close>: the array of program-stage ids is destructured into four names
  (a position beyond the end of the array is \<open>undefined\<close>), and the six steps are piped.
\<close>

definition nthOrUndefined :: "string option list \<Rightarrow> nat \<Rightarrow> string option" where
  "nthOrUndefined xs i = (if i < length xs then xs ! i else None)"

definition addLabInformation ::
  "string option list \<Rightarrow> catalogEntry list \<Rightarrow> (string \<times> string) list \<Rightarrow> obj \<Rightarrow> error + obj" where
  "addLabInformation programsIDs dataElements confirmedTestConditions =
     pipe2 (addEvent dataElements ''clinicalExamination'' (nthOrUndefined programsIDs 0))
    (pipe2 (addEvent dataElements ''labRequestStage'' (nthOrUndefined programsIDs 1))
    (pipe2 (addEvent dataElements ''labResultStage'' (nthOrUndefined programsIDs 2))
    (pipe2 (addEvent dataElements ''symptoms'' (nthOrUndefined programsIDs 3))
    (pipe2 (\<lambda>te. Inr (addLabResult confirmedTestConditions te))
           addCaseClassification))))"


text \<open>The four field names \<open>addLabInformation\<close> stores the stages under, and the four classifications.\<close>

definition stageFields :: "string list" where
  "stageFields = [''clinicalExamination'', ''labRequestStage'', ''labResultStage'', ''symptoms'']"

definition caseClassifications :: "string list" where
  "caseClassifications = [''CONFIRMED'', ''NOT_A_CASE_DISCARDED'', ''PROBABLE'', ''SUSPECT'']"

text \<open>
  The enriched data values of one stage of an event list: what \<open>findAndTransformEvent\<close>
  computes once \<open>R.find\<close> has been given a list of events.
\<close>

definition stageValues :: "catalogEntry list \<Rightarrow> string option \<Rightarrow> event list \<Rightarrow> dataValue list" where
  "stageValues dataElements programID es =
     map (addDisplayName dataElements)
       (case (case find (\<lambda>e. Some (programStage e) = programID) es of
                None \<Rightarrow> None | Some ev \<Rightarrow> dataValues ev) of
          None \<Rightarrow> [] | Some dvs \<Rightarrow> dvs)"

text \<open>
  The reading of the specification's sentence on the lab result, to compare with the code:
  every condition pair finds some data value of the stage with that element id whose value
  is the expected one.
\<close>

definition someDataValueMatches :: "(string \<times> string) list \<Rightarrow> dataValue list \<Rightarrow> bool" where
  "someDataValueMatches conditions dvs =
     list_all (\<lambda>(de, v). list_ex (\<lambda>d. dataElement d = de \<and> dv_value d = Some v) dvs) conditions"

section \<open>Outbreak assignment\<close>

text \<open>
  \<open>R.reduceBy((acc, el) => R.append(el, acc), [], keyFn)\<close>, which is also \<open>R.groupBy(keyFn)\<close>:
  an object from keys to the list of the elements with that key, each list in the order of
  the input.
\<close>

definition reduceByAppend :: "('a \<Rightarrow> string) \<Rightarrow> 'a list \<Rightarrow> (string \<rightharpoonup> 'a list)" where
  "reduceByAppend keyFn xs =
     foldl (\<lambda>acc el. acc(keyFn el \<mapsto> (case acc (keyFn el) of None \<Rightarrow> [] | Some b \<Rightarrow> b) @ [el]))
       Map.empty xs"

text \<open>
  A value used as a property key is converted to a string: \<open>undefined\<close> gives the key
  \<open>undefined\<close>, an array the comma-separated strings of its elements, and an object the
  string \<open>[object Object]\<close>.
\<close>

fun joinWithCommas :: "string list \<Rightarrow> string" where
  "joinWithCommas [] = []"
| "joinWithCommas [s] = s"
| "joinWithCommas (s # t # ss) = s @ '','' @ joinWithCommas (t # ss)"

fun toPropertyKey :: "val \<Rightarrow> string" where
  "toPropertyKey Undef = ''undefined''"
| "toPropertyKey (Str s) = s"
| "toPropertyKey (Events es) = joinWithCommas (map (\<lambda>e. ''[object Object]'') es)"
| "toPropertyKey (Stage dvs) = joinWithCommas (map (\<lambda>d. ''[object Object]'') dvs)"

text \<open>
  The key of an outbreak in the index is \<open>R.path(['locationIds', 0])\<close>: its first location
  id, and \<open>undefined\<close> (the key \<open>undefined\<close>) when it lists none.
\<close>

definition firstLocationKey :: "outbreakRec \<Rightarrow> string" where
  "firstLocationKey ob = (case locationIds ob of [] \<Rightarrow> ''undefined'' | l # ls \<Rightarrow> l)"

definition locationsAvaliable :: "outbreakRec list \<Rightarrow> (string \<rightharpoonup> outbreakRec list)" where
  "locationsAvaliable outbreaks = reduceByAppend firstLocationKey outbreaks"

text \<open>
  \<open>findOutbreackForCase\<close> recurses on the parent's id with no bound, so it is a partial
  function: \<open>None\<close> means that the call does not return. \<open>Some (Inl TypeError)\<close> is the
  exception raised when no organisation unit has the id, or when the unit found has no
  parent. \<open>R.path([locationID, 0, 'id'], available)\<close> is \<open>undefined\<close> on an empty bucket.
  The index is a map from the keys \<open>R.reduceBy\<close> has stored to their buckets; the
  properties an object inherits (\<open>constructor\<close>, \<open>toString\<close> and the like) are not keys
  of the model, so an identifier is taken not to be one of those names. A call stack that
  overflows on a long chain of parents is not modelled either.
\<close>

partial_function (option) findOutbreackForCase ::
  "(string \<rightharpoonup> outbreakRec list) \<Rightarrow> orgUnit list \<Rightarrow> string \<Rightarrow> (error + string option) option" where
  "findOutbreackForCase available orgUnits locationID =
     (case available locationID of
        Some bucket \<Rightarrow> Some (Inr (case bucket of [] \<Rightarrow> None | ob # obs \<Rightarrow> Some (ob_id ob)))
      | None \<Rightarrow>
          (case find (\<lambda>u. ou_id u = locationID) orgUnits of
             None \<Rightarrow> Some (Inl TypeError)
           | Some u \<Rightarrow>
               (case parent u of
                  None \<Rightarrow> Some (Inl TypeError)
                | Some parentID \<Rightarrow> findOutbreackForCase available orgUnits parentID)))"

text \<open>
  \<open>assignOutbreak\<close> builds the index once and stores the outbreak found for the tracked
  entity's \<open>orgUnit\<close>. An \<open>orgUnit\<close> that is not a string is looked up in the index under its
  property key and equals no organisation unit's id.
\<close>

definition assignOutbreak :: "outbreakRec list \<Rightarrow> orgUnit list \<Rightarrow> obj \<Rightarrow> (error + obj) option" where
  "assignOutbreak outbreaks orgUnits trackedEntity =
     (case (case propOf ''orgUnit'' trackedEntity of
              Str l \<Rightarrow> findOutbreackForCase (locationsAvaliable outbreaks) orgUnits l
            | Undef \<Rightarrow> findOutbreackForCase (locationsAvaliable outbreaks) [] (toPropertyKey Undef)
            | Events es \<Rightarrow>
                findOutbreackForCase (locationsAvaliable outbreaks) [] (toPropertyKey (Events es))
            | Stage dvs \<Rightarrow>
                findOutbreackForCase (locationsAvaliable outbreaks) [] (toPropertyKey (Stage dvs))) of
        None \<Rightarrow> None
      | Some (Inl e) \<Rightarrow> Some (Inl e)
      | Some (Inr found) \<Rightarrow>
          Some (Inr (assoc ''outbreak'' (case found of None \<Rightarrow> Undef | Some i \<Rightarrow> Str i)
                       trackedEntity)))"

text \<open>
  The parent link the recursion follows, and the chain of ancestors of an organisation
  unit id: \<open>nthAncestor orgUnits l n\<close> is the id reached from \<open>l\<close> by \<open>n\<close> parent links.
\<close>

definition parentOf :: "orgUnit list \<Rightarrow> string \<Rightarrow> string option" where
  "parentOf orgUnits l =
     (case find (\<lambda>u. ou_id u = l) orgUnits of None \<Rightarrow> None | Some u \<Rightarrow> parent u)"

fun nthAncestor :: "orgUnit list \<Rightarrow> string \<Rightarrow> nat \<Rightarrow> string option" where
  "nthAncestor orgUnits l 0 = Some l"
| "nthAncestor orgUnits l (Suc n) =
     (case parentOf orgUnits l of None \<Rightarrow> None | Some p \<Rightarrow> nthAncestor orgUnits p n)"


section \<open>Sending the cases\<close>

text \<open>
  The Go.Data client is outside the program. A call either is fulfilled, and the \<open>await\<close>
  continues with its value, or is rejected, and the \<open>await\<close> throws and ends the run (a
  promise that never settles ends the calls of the run in the same way). The model of
  \<open>sendCasesToGoData\<close> returns the trace of the run: each call in the order the run issues
  it, and after each awaited call that was fulfilled a record of its completion. The
  client's answer to a call may depend on everything that happened before it.
\<close>

datatype 'a promise = Fulfilled 'a | Rejected

record user =
  userId :: string

datatype call =
    Login
  | ActivateOutbreakForUser string string
  | CreateOutbreakCase string obj

datatype traceEvent = Issued call | Completed call

record godataClient =
  login :: "traceEvent list \<Rightarrow> user promise"
  activateOutbreakForUser :: "traceEvent list \<Rightarrow> string \<Rightarrow> string \<Rightarrow> unit promise"
  createOutbreakCase :: "traceEvent list \<Rightarrow> string \<Rightarrow> obj \<Rightarrow> unit promise"

text \<open>\<open>R.dissoc\<close>: a copy of the object without the property.\<close>

definition dissoc :: "string \<Rightarrow> obj \<Rightarrow> obj" where
  "dissoc name ob = ob(name := None)"

text \<open>
  The body of the \<open>for ... in\<close> loop, once for each key in the order of enumeration.
  \<open>R.map\<close> calls \<open>createOutbreakCase\<close> for every case of the group before any of the
  promises is awaited; \<open>R.map\<close> over a key that has no group raises, after the activation.
  \<open>allPromises\<close> is imported from the utilities of the repository and is a parameter here:
  it combines the promises of the group into the one that is awaited.
\<close>

fun sendOutbreaks ::
  "(unit promise list \<Rightarrow> unit promise) \<Rightarrow> godataClient \<Rightarrow> user \<Rightarrow> (string \<rightharpoonup> obj list) \<Rightarrow>
   string list \<Rightarrow> traceEvent list \<Rightarrow> traceEvent list" where
  "sendOutbreaks allPromises godata usr outbreaks [] tr = tr"
| "sendOutbreaks allPromises godata usr outbreaks (outbreak # rest) tr =
     (let activation = ActivateOutbreakForUser (userId usr) outbreak;
          tr1 = tr @ [Issued activation]
      in case activateOutbreakForUser godata tr1 (userId usr) outbreak of
           Rejected \<Rightarrow> tr1
         | Fulfilled u \<Rightarrow>
             (let tr2 = tr1 @ [Completed activation]
              in case outbreaks outbreak of
                   None \<Rightarrow> tr2
                 | Some cases \<Rightarrow>
                     (let tr3 = tr2 @ map (\<lambda>c. Issued (CreateOutbreakCase outbreak
                                                      (dissoc ''outbreak'' c))) cases
                      in case allPromises
                                (map (\<lambda>c. createOutbreakCase godata tr3 outbreak
                                                (dissoc ''outbreak'' c)) cases) of
                           Rejected \<Rightarrow> tr3
                         | Fulfilled u \<Rightarrow>
                             sendOutbreaks allPromises godata usr outbreaks rest tr3)))"

text \<open>
  \<open>sendCasesToGoData\<close>: \<open>R.groupBy(R.prop('outbreak'))\<close>, then the login, then the loop.
  \<open>for ... in\<close> enumerates the keys of the grouping in an order the JavaScript engine
  fixes (integer-like keys first, then the others by insertion); the model takes that
  order as the parameter \<open>keyOrder\<close>, applied to the keys in order of first occurrence.
\<close>

definition sendCasesToGoData ::
  "(string list \<Rightarrow> string list) \<Rightarrow> (unit promise list \<Rightarrow> unit promise) \<Rightarrow> godataClient \<Rightarrow>
   obj list \<Rightarrow> traceEvent list" where
  "sendCasesToGoData keyOrder allPromises godata cases =
     (let outbreaks = reduceByAppend (\<lambda>c. toPropertyKey (propOf ''outbreak'' c)) cases
      in case login godata [Issued Login] of
           Rejected \<Rightarrow> [Issued Login]
         | Fulfilled usr \<Rightarrow>
             sendOutbreaks allPromises godata usr outbreaks
               (keyOrder (rev (remdups (rev
                  (map (\<lambda>c. toPropertyKey (propOf ''outbreak'' c)) cases)))))
               [Issued Login, Completed Login])"


text \<open>
  Two notions for reasoning about a trace: the outbreaks whose activation has completed
  in it, and the check, from left to right, that every \<open>createOutbreakCase\<close> call comes
  after the completed activation of its outbreak (\<open>A\<close> holds the outbreaks activated so far).
\<close>

definition activated :: "traceEvent list \<Rightarrow> string set" where
  "activated tr = {ob. \<exists>uid. Completed (ActivateOutbreakForUser uid ob) \<in> set tr}"

fun createsFollowActivation :: "string set \<Rightarrow> traceEvent list \<Rightarrow> bool" where
  "createsFollowActivation A [] = True"
| "createsFollowActivation A (e # tr) =
     ((case e of Issued (CreateOutbreakCase ob c) \<Rightarrow> ob \<in> A | _ \<Rightarrow> True)
      \<and> createsFollowActivation (A \<union> activated [e]) tr)"

section \<open>Properties of the enrichment and the classification\<close>

lemma propOf_assoc: "propOf n (assoc m v ob) = (if n = m then v else propOf n ob)"
  by (simp add: propOf_def assoc_def)

lemma propOf_upd: "propOf n (ob(m \<mapsto> v)) = (if n = m then v else propOf n ob)"
  by (simp add: propOf_def)

lemma propOf_events_upd:
  "n \<noteq> ''events'' \<Longrightarrow> propOf ''events'' (t(n \<mapsto> v)) = propOf ''events'' t"
  by (simp add: propOf_def)

lemma error_unique: "(a::error) = b"
  by (cases a, cases b) simp

lemma checkDataValuesConditions_iff:
  "checkDataValuesConditions conditions te =
     (\<forall>(de, v) \<in> set conditions. checkDataValue (propOf ''labResultStage'' te) de v)"
  by (auto simp: checkDataValuesConditions_def list_all_iff)

text \<open>Whatever the stage holds, \<open>addLabResult\<close> takes the first branch and stores a lab result.\<close>

lemma addLabResult_sets:
  "addLabResult conditions te =
     te(''labResult'' \<mapsto>
          Str (if checkDataValuesConditions conditions te then ''POSITIVE'' else ''NEGATIVE''))"
  by (simp add: addLabResult_def propSatisfies_def notIdenticalToNewArray_def assoc_def)

lemma addEvent_unfold:
  "addEvent dataElements eventName programStageID te =
     (case findAndTransformEvent dataElements programStageID (propOf ''events'' te) of
        Inl e \<Rightarrow> Inl e
      | Inr ev \<Rightarrow> Inr (te(eventName \<mapsto> Stage ev)))"
  by (simp add: addEvent_def assoc_def split: sum.splits)

lemma addEvent_stageValues:
  "propOf ''events'' te = Events es \<Longrightarrow>
   addEvent dataElements eventName programStageID te =
     Inr (te(eventName \<mapsto> Stage (stageValues dataElements programStageID es)))"
  by (simp add: addEvent_def findAndTransformEvent_def findEvent_def assoc_def stageValues_def)

lemma addEvent_commute:
  assumes "n1 \<noteq> n2" and "n1 \<noteq> ''events''" and "n2 \<noteq> ''events''"
  shows "pipe2 (addEvent dataElements n1 s1) (addEvent dataElements n2 s2) te
       = pipe2 (addEvent dataElements n2 s2) (addEvent dataElements n1 s1) te"
  using assms
  by (auto simp: pipe2_def addEvent_unfold propOf_events_upd fun_upd_twist error_unique
      split: sum.splits)

lemma addLabInformation_Events:
  assumes "propOf ''events'' te = Events es"
  shows "addLabInformation programsIDs dataElements conditions te =
     addCaseClassification (addLabResult conditions
       (te(''clinicalExamination'' \<mapsto>
             Stage (stageValues dataElements (nthOrUndefined programsIDs 0) es),
           ''labRequestStage'' \<mapsto>
             Stage (stageValues dataElements (nthOrUndefined programsIDs 1) es),
           ''labResultStage'' \<mapsto>
             Stage (stageValues dataElements (nthOrUndefined programsIDs 2) es),
           ''symptoms'' \<mapsto>
             Stage (stageValues dataElements (nthOrUndefined programsIDs 3) es))))"
  unfolding addLabInformation_def
  by (simp add: pipe2_def addEvent_stageValues assms propOf_events_upd)

lemma classify_range: "classify te = Inr c \<Longrightarrow> c \<in> set caseClassifications"
  by (auto simp: classify_def caseClassifications_def split: if_splits sum.splits bool.splits)

lemma classify_Stage:
  assumes "propOf ''labResultStage'' te = Stage results"
      and "propOf ''labRequestStage'' te = Stage requests"
  shows "classify te =
     Inr (if propOf ''labResult'' te = Str ''POSITIVE'' then ''CONFIRMED''
          else if propOf ''labResult'' te = Str ''NEGATIVE'' \<and> results \<noteq> []
               then ''NOT_A_CASE_DISCARDED''
          else if requests \<noteq> [] then ''PROBABLE''
          else ''SUSPECT'')"
  using assms by (simp add: classify_def)

text \<open>
  C1. The claim: on a tracked entity instance whose \<open>labResultStage\<close> is the empty list,
  \<open>addLabResult\<close> returns the instance unchanged and \<open>labResult\<close> stays unset. The code
  does otherwise. On the instance that holds only an empty \<open>labResultStage\<close>, with no
  condition to check, the result is not the instance: it has \<open>labResult\<close> set to
  \<open>POSITIVE\<close>; with one condition it has \<open>labResult\<close> set to \<open>NEGATIVE\<close>.
\<close>

theorem addLabResult_empty_stage_sets_labResult:
  "propOf ''labResult'' (Map.empty(''labResultStage'' \<mapsto> Stage [])) = Undef
   \<and> addLabResult [] (Map.empty(''labResultStage'' \<mapsto> Stage []))
       = (Map.empty(''labResultStage'' \<mapsto> Stage [], ''labResult'' \<mapsto> Str ''POSITIVE''))
   \<and> propOf ''labResult'' (addLabResult [] (Map.empty(''labResultStage'' \<mapsto> Stage [])))
       = Str ''POSITIVE''
   \<and> propOf ''labResult''
        (addLabResult [(''de1'', ''Positive'')] (Map.empty(''labResultStage'' \<mapsto> Stage [])))
       = Str ''NEGATIVE''"
  by (simp add: addLabResult_def propSatisfies_def notIdenticalToNewArray_def assoc_def
      checkDataValuesConditions_def checkDataValue_def findDataValueByID_def propOf_def)

text \<open>
  C2, as stated: the lab result is \<open>POSITIVE\<close> exactly when every condition pair finds
  some data value of the stage with that element id and the expected value. It fails on a
  stage with two data values of one element, the first with another value and the second
  with the expected one: some data value matches, and the code answers \<open>NEGATIVE\<close>.
\<close>

theorem addLabResult_some_data_value_counterexample:
  "someDataValueMatches [(''de1'', ''Positive'')]
      [\<lparr>dataElement = ''de1'', dv_value = Some ''Negative'', displayName = None\<rparr>,
       \<lparr>dataElement = ''de1'', dv_value = Some ''Positive'', displayName = None\<rparr>]
   \<and> propOf ''labResult'' (addLabResult [(''de1'', ''Positive'')]
        (Map.empty(''labResultStage'' \<mapsto> Stage
           [\<lparr>dataElement = ''de1'', dv_value = Some ''Negative'', displayName = None\<rparr>,
            \<lparr>dataElement = ''de1'', dv_value = Some ''Positive'', displayName = None\<rparr>])))
     = Str ''NEGATIVE''"
  by (simp add: someDataValueMatches_def addLabResult_def propSatisfies_def
      notIdenticalToNewArray_def assoc_def checkDataValuesConditions_def checkDataValue_def
      findDataValueByID_def propOf_def)

text \<open>
  C2, amended: for a non-empty \<open>labResultStage\<close> and every list of condition pairs,
  \<open>addLabResult\<close> sets \<open>labResult\<close> to \<open>POSITIVE\<close> if and only if for every pair the first
  data value of the stage with that element id exists and has the expected value, and to
  \<open>NEGATIVE\<close> otherwise; a pair whose element id matches no data value of the stage is a
  failed condition.
\<close>

theorem addLabResult_first_data_value:
  assumes "propOf ''labResultStage'' te = Stage dvs" and "dvs \<noteq> []"
  shows "propOf ''labResult'' (addLabResult conditions te) =
           Str (if (\<forall>(de, v) \<in> set conditions.
                      \<exists>d. find (\<lambda>d. dataElement d = de) dvs = Some d \<and> dv_value d = Some v)
                then ''POSITIVE'' else ''NEGATIVE'')
       \<and> (\<forall>(de, v) \<in> set conditions. de \<notin> dataElement ` set dvs \<longrightarrow>
             propOf ''labResult'' (addLabResult conditions te) = Str ''NEGATIVE'')"
proof -
  have chk: "checkDataValue (Stage dvs) de v =
          (\<exists>d. find (\<lambda>d. dataElement d = de) dvs = Some d \<and> dv_value d = Some v)" for de v
    by (auto simp: checkDataValue_def findDataValueByID_def split: option.splits)
  have all: "checkDataValuesConditions conditions te =
          (\<forall>(de, v) \<in> set conditions.
              \<exists>d. find (\<lambda>d. dataElement d = de) dvs = Some d \<and> dv_value d = Some v)"
    by (simp add: checkDataValuesConditions_iff assms(1) chk)
  have miss: "\<not> checkDataValuesConditions conditions te"
    if "(de, v) \<in> set conditions" "de \<notin> dataElement ` set dvs" for de v
  proof -
    have "find (\<lambda>d. dataElement d = de) dvs = None"
      using that(2) by (auto simp: find_None_iff)
    then have "\<not> checkDataValue (Stage dvs) de v" by (simp add: chk)
    with that(1) show ?thesis by (auto simp: checkDataValuesConditions_iff assms(1))
  qed
  show ?thesis
    using miss by (auto simp: addLabResult_sets propOf_upd all[symmetric])
qed

theorem addLabResult_first_data_value_witness:
  "propOf ''labResultStage''
     (Map.empty(''labResultStage'' \<mapsto> Stage
        [\<lparr>dataElement = ''de1'', dv_value = Some ''Positive'', displayName = None\<rparr>]))
     = Stage [\<lparr>dataElement = ''de1'', dv_value = Some ''Positive'', displayName = None\<rparr>]
   \<and> [\<lparr>dataElement = ''de1'', dv_value = Some ''Positive'', displayName = None\<rparr>] \<noteq> []
   \<and> propOf ''labResult'' (addLabResult [(''de1'', ''Positive'')]
        (Map.empty(''labResultStage'' \<mapsto> Stage
           [\<lparr>dataElement = ''de1'', dv_value = Some ''Positive'', displayName = None\<rparr>])))
       = Str ''POSITIVE''"
  using addLabResult_first_data_value
    [of "Map.empty(''labResultStage'' \<mapsto> Stage
           [\<lparr>dataElement = ''de1'', dv_value = Some ''Positive'', displayName = None\<rparr>])"
        "[\<lparr>dataElement = ''de1'', dv_value = Some ''Positive'', displayName = None\<rparr>]"
        "[(''de1'', ''Positive'')]"]
  by (simp add: propOf_def)

text \<open>
  C3. For every tracked entity instance whose \<open>labResultStage\<close> and \<open>labRequestStage\<close> are
  present (lists of data values), \<open>addCaseClassification\<close> returns the instance with
  \<open>caseClassification\<close> set by the first rule that matches: \<open>labResult\<close> equal to
  \<open>POSITIVE\<close> gives \<open>CONFIRMED\<close>; otherwise \<open>labResult\<close> equal to \<open>NEGATIVE\<close> with a
  non-empty \<open>labResultStage\<close> gives \<open>NOT_A_CASE_DISCARDED\<close>; otherwise a non-empty
  \<open>labRequestStage\<close> gives \<open>PROBABLE\<close>; otherwise \<open>SUSPECT\<close>.
\<close>

theorem addCaseClassification_chain:
  assumes "propOf ''labResultStage'' te = Stage results"
      and "propOf ''labRequestStage'' te = Stage requests"
  shows "addCaseClassification te =
     Inr (assoc ''caseClassification''
           (Str (if propOf ''labResult'' te = Str ''POSITIVE'' then ''CONFIRMED''
                 else if propOf ''labResult'' te = Str ''NEGATIVE'' \<and> results \<noteq> []
                      then ''NOT_A_CASE_DISCARDED''
                 else if requests \<noteq> [] then ''PROBABLE''
                 else ''SUSPECT'')) te)"
  by (simp add: addCaseClassification_def classify_Stage[OF assms])

theorem addCaseClassification_chain_witness:
  "propOf ''labResultStage''
     (Map.empty(''labResult'' \<mapsto> Str ''NEGATIVE'',
        ''labResultStage'' \<mapsto> Stage
           [\<lparr>dataElement = ''de1'', dv_value = Some ''Negative'', displayName = None\<rparr>],
        ''labRequestStage'' \<mapsto> Stage []))
     = Stage [\<lparr>dataElement = ''de1'', dv_value = Some ''Negative'', displayName = None\<rparr>]
   \<and> propOf ''labRequestStage''
     (Map.empty(''labResult'' \<mapsto> Str ''NEGATIVE'',
        ''labResultStage'' \<mapsto> Stage
           [\<lparr>dataElement = ''de1'', dv_value = Some ''Negative'', displayName = None\<rparr>],
        ''labRequestStage'' \<mapsto> Stage []))
     = Stage []
   \<and> map_sum id (propOf ''caseClassification'')
       (addCaseClassification
         (Map.empty(''labResult'' \<mapsto> Str ''NEGATIVE'',
            ''labResultStage'' \<mapsto> Stage
               [\<lparr>dataElement = ''de1'', dv_value = Some ''Negative'', displayName = None\<rparr>],
            ''labRequestStage'' \<mapsto> Stage [])))
     = Inr (Str ''NOT_A_CASE_DISCARDED'')"
  using addCaseClassification_chain
    [of "Map.empty(''labResult'' \<mapsto> Str ''NEGATIVE'',
            ''labResultStage'' \<mapsto> Stage
               [\<lparr>dataElement = ''de1'', dv_value = Some ''Negative'', displayName = None\<rparr>],
            ''labRequestStage'' \<mapsto> Stage [])"
        "[\<lparr>dataElement = ''de1'', dv_value = Some ''Negative'', displayName = None\<rparr>]"
        "[]"]
  by (simp add: propOf_def assoc_def)


text \<open>
  C7. The claim: with no event for any of the four stages, the pipeline classifies the
  instance as \<open>SUSPECT\<close> for every list of confirmed-test conditions. With the empty list
  of conditions the code does otherwise: \<open>addLabResult\<close> stores a lab result although the
  stage is empty, \<open>R.allPass\<close> of no predicate holds, and the instance with no event at all
  is classified as \<open>CONFIRMED\<close>, whatever the program-stage ids and the catalog.
\<close>

theorem addLabInformation_no_event_no_condition_confirmed:
  "map_sum id (propOf ''caseClassification'')
     (addLabInformation programsIDs dataElements [] (Map.empty(''events'' \<mapsto> Events [])))
   = Inr (Str ''CONFIRMED'')"
proof -
  have ev: "propOf ''events'' (Map.empty(''events'' \<mapsto> Events [])) = Events []"
    by (simp add: propOf_def)
  show ?thesis
    by (simp add: addLabInformation_Events[OF ev] addLabResult_sets addCaseClassification_def
        classify_def propOf_upd checkDataValuesConditions_def assoc_def)
qed

text \<open>
  With at least one condition the same pipeline does classify an instance that has no
  event of any of the four stages as \<open>SUSPECT\<close>: the stored lab result is \<open>NEGATIVE\<close>
  and the second rule of the chain asks for a non-empty stage.
\<close>

lemma stageValues_no_event:
  "\<forall>e \<in> set es. Some (programStage e) \<noteq> programID \<Longrightarrow>
   stageValues dataElements programID es = []"
  by (simp add: stageValues_def find_None_iff[THEN iffD2])

lemma checkDataValuesConditions_empty_stage:
  "conditions \<noteq> [] \<Longrightarrow> propOf ''labResultStage'' te = Stage [] \<Longrightarrow>
   \<not> checkDataValuesConditions conditions te"
  by (cases conditions)
     (auto simp: checkDataValuesConditions_def checkDataValue_def findDataValueByID_def)

lemma addLabInformation_no_event_suspect:
  assumes "propOf ''events'' te = Events es"
      and "\<forall>e \<in> set es. \<forall>i < 4. Some (programStage e) \<noteq> nthOrUndefined programsIDs i"
      and "conditions \<noteq> []"
  shows "map_sum id (propOf ''caseClassification'')
           (addLabInformation programsIDs dataElements conditions te) = Inr (Str ''SUSPECT'')"
proof -
  have none: "stageValues dataElements (nthOrUndefined programsIDs i) es = []" if "i < 4" for i
    using assms(2) that by (intro stageValues_no_event) auto
  let ?t = "te(''clinicalExamination'' \<mapsto> Stage [], ''labRequestStage'' \<mapsto> Stage [],
               ''labResultStage'' \<mapsto> Stage [], ''symptoms'' \<mapsto> Stage [])"
  have neg: "\<not> checkDataValuesConditions conditions ?t"
    by (rule checkDataValuesConditions_empty_stage[OF assms(3)]) (simp add: propOf_upd)
  have "addLabInformation programsIDs dataElements conditions te =
          addCaseClassification (addLabResult conditions ?t)"
    by (simp add: addLabInformation_Events[OF assms(1)] none)
  also have "\<dots> = Inr ((?t(''labResult'' \<mapsto> Str ''NEGATIVE''))
                         (''caseClassification'' \<mapsto> Str ''SUSPECT''))"
    by (simp add: addLabResult_sets neg addCaseClassification_def classify_def propOf_upd
        assoc_def)
  finally show ?thesis by (simp add: propOf_upd)
qed

text \<open>
  C8. For every tracked entity instance whose event list holds no event of the configured
  program stage, \<open>addEvent\<close> does not raise: it returns the instance with the empty list
  stored under the stage's field name.
\<close>

theorem addEvent_no_event_empty_list:
  assumes "propOf ''events'' te = Events es"
      and "\<forall>e \<in> set es. Some (programStage e) \<noteq> programStageID"
  shows "addEvent dataElements eventName programStageID te = Inr (te(eventName \<mapsto> Stage []))"
proof -
  have "find (\<lambda>e. Some (programStage e) = programStageID) es = None"
    using assms(2) by (simp add: find_None_iff)
  then show ?thesis
    by (simp add: addEvent_stageValues[OF assms(1)] stageValues_def)
qed

theorem addEvent_no_event_empty_list_witness:
  "propOf ''events''
     (Map.empty(''events'' \<mapsto> Events
        [\<lparr>programStage = ''stageB'', dataValues = Some
            [\<lparr>dataElement = ''de1'', dv_value = Some ''38'', displayName = None\<rparr>]\<rparr>]))
     = Events [\<lparr>programStage = ''stageB'', dataValues = Some
            [\<lparr>dataElement = ''de1'', dv_value = Some ''38'', displayName = None\<rparr>]\<rparr>]
   \<and> Some (programStage \<lparr>programStage = ''stageB'', dataValues = Some
            [\<lparr>dataElement = ''de1'', dv_value = Some ''38'', displayName = None\<rparr>]\<rparr>)
       \<noteq> Some ''stageA''
   \<and> map_sum id (propOf ''labResultStage'')
       (addEvent [] ''labResultStage'' (Some ''stageA'')
         (Map.empty(''events'' \<mapsto> Events
            [\<lparr>programStage = ''stageB'', dataValues = Some
                [\<lparr>dataElement = ''de1'', dv_value = Some ''38'', displayName = None\<rparr>]\<rparr>])))
     = Inr (Stage [])"
  using addEvent_no_event_empty_list
    [of "Map.empty(''events'' \<mapsto> Events
            [\<lparr>programStage = ''stageB'', dataValues = Some
                [\<lparr>dataElement = ''de1'', dv_value = Some ''38'', displayName = None\<rparr>]\<rparr>])"
        "[\<lparr>programStage = ''stageB'', dataValues = Some
                [\<lparr>dataElement = ''de1'', dv_value = Some ''38'', displayName = None\<rparr>]\<rparr>]"
        "Some ''stageA''" "[]" "''labResultStage''"]
  by (simp add: propOf_def)

text \<open>
  C9. The stage enrichments commute: for every tracked entity instance and every two
  distinct field names among the four that \<open>addLabInformation\<close> uses, the two \<open>addEvent\<close>
  steps give the same result in either order, whatever the program-stage ids (the same
  object, or the same exception when the instance has no event list).
\<close>

theorem addEvent_stage_fields_commute:
  assumes "n1 \<in> set stageFields" and "n2 \<in> set stageFields" and "n1 \<noteq> n2"
  shows "pipe2 (addEvent dataElements n1 s1) (addEvent dataElements n2 s2) te
       = pipe2 (addEvent dataElements n2 s2) (addEvent dataElements n1 s1) te"
proof -
  have "n1 \<noteq> ''events''" "n2 \<noteq> ''events''"
    using assms(1,2) by (auto simp: stageFields_def)
  with assms(3) show ?thesis by (rule addEvent_commute)
qed

theorem addEvent_stage_fields_commute_witness:
  "''labRequestStage'' \<in> set stageFields \<and> ''symptoms'' \<in> set stageFields
   \<and> ''labRequestStage'' \<noteq> ''symptoms''
   \<and> pipe2 (addEvent [] ''labRequestStage'' (Some ''stageA''))
            (addEvent [] ''symptoms'' (Some ''stageB''))
        (Map.empty(''events'' \<mapsto> Events
           [\<lparr>programStage = ''stageB'', dataValues = Some
               [\<lparr>dataElement = ''de1'', dv_value = Some ''38'', displayName = None\<rparr>]\<rparr>]))
     = pipe2 (addEvent [] ''symptoms'' (Some ''stageB''))
             (addEvent [] ''labRequestStage'' (Some ''stageA''))
        (Map.empty(''events'' \<mapsto> Events
           [\<lparr>programStage = ''stageB'', dataValues = Some
               [\<lparr>dataElement = ''de1'', dv_value = Some ''38'', displayName = None\<rparr>]\<rparr>]))"
proof -
  have h: "''labRequestStage'' \<in> set stageFields" "''symptoms'' \<in> set stageFields"
    "''labRequestStage'' \<noteq> ''symptoms''"
    by (simp_all add: stageFields_def)
  from h addEvent_stage_fields_commute[OF h] show ?thesis by blast
qed

text \<open>
  C10. For every tracked entity instance (an object with an event list) and every
  configuration, \<open>addLabInformation\<close> returns an instance whose \<open>caseClassification\<close> is one
  of \<open>CONFIRMED\<close>, \<open>NOT_A_CASE_DISCARDED\<close>, \<open>PROBABLE\<close> and \<open>SUSPECT\<close>; the field is
  overwritten: giving the instance any value \<open>old\<close> for \<open>caseClassification\<close> beforehand
  leaves the result's classification the same.
\<close>

theorem addLabInformation_caseClassification:
  assumes "propOf ''events'' te = Events es"
  shows "\<exists>c \<in> set caseClassifications.
           map_sum id (propOf ''caseClassification'')
             (addLabInformation programsIDs dataElements conditions te) = Inr (Str c)
         \<and> map_sum id (propOf ''caseClassification'')
             (addLabInformation programsIDs dataElements conditions
                (assoc ''caseClassification'' old te)) = Inr (Str c)"
proof -
  let ?enrich = "\<lambda>t::obj. addLabResult conditions
       (t(''clinicalExamination'' \<mapsto>
             Stage (stageValues dataElements (nthOrUndefined programsIDs 0) es),
          ''labRequestStage'' \<mapsto>
             Stage (stageValues dataElements (nthOrUndefined programsIDs 1) es),
          ''labResultStage'' \<mapsto>
             Stage (stageValues dataElements (nthOrUndefined programsIDs 2) es),
          ''symptoms'' \<mapsto>
             Stage (stageValues dataElements (nthOrUndefined programsIDs 3) es)))"
  let ?te' = "assoc ''caseClassification'' old te"
  have ev': "propOf ''events'' ?te' = Events es"
    using assms by (simp add: propOf_assoc)
  have results: "propOf ''labResultStage'' (?enrich t) =
      Stage (stageValues dataElements (nthOrUndefined programsIDs 2) es)" for t
    by (simp add: addLabResult_sets propOf_upd)
  have requests: "propOf ''labRequestStage'' (?enrich t) =
      Stage (stageValues dataElements (nthOrUndefined programsIDs 1) es)" for t
    by (simp add: addLabResult_sets propOf_upd)
  have labResult: "propOf ''labResult'' (?enrich ?te') = propOf ''labResult'' (?enrich te)"
    by (simp add: addLabResult_sets propOf_upd checkDataValuesConditions_iff)
  have same: "classify (?enrich ?te') = classify (?enrich te)"
    by (simp only: classify_Stage[OF results requests] labResult)
  obtain c where c: "classify (?enrich te) = Inr c"
    by (simp only: classify_Stage[OF results requests])
  have "c \<in> set caseClassifications" using c by (rule classify_range)
  moreover have "map_sum id (propOf ''caseClassification'')
             (addLabInformation programsIDs dataElements conditions te) = Inr (Str c)"
  proof -
    have "addLabInformation programsIDs dataElements conditions te =
            addCaseClassification (?enrich te)"
      by (rule addLabInformation_Events[OF assms])
    also have "\<dots> = Inr (assoc ''caseClassification'' (Str c) (?enrich te))"
      by (simp only: addCaseClassification_def c sum.case)
    finally show ?thesis by (simp add: propOf_assoc)
  qed
  moreover have "map_sum id (propOf ''caseClassification'')
             (addLabInformation programsIDs dataElements conditions ?te') = Inr (Str c)"
  proof -
    have "addLabInformation programsIDs dataElements conditions ?te' =
            addCaseClassification (?enrich ?te')"
      by (rule addLabInformation_Events[OF ev'])
    also have "\<dots> = Inr (assoc ''caseClassification'' (Str c) (?enrich ?te'))"
      by (simp only: addCaseClassification_def same c sum.case)
    finally show ?thesis by (simp add: propOf_assoc)
  qed
  ultimately show ?thesis by blast
qed

theorem addLabInformation_caseClassification_witness:
  "propOf ''events'' (Map.empty(''events'' \<mapsto> Events [])) = Events []
   \<and> (\<exists>c \<in> set caseClassifications.
        map_sum id (propOf ''caseClassification'')
          (addLabInformation [Some ''s1'', Some ''s2'', Some ''s3'', Some ''s4''] []
             [(''de1'', ''Positive'')] (Map.empty(''events'' \<mapsto> Events []))) = Inr (Str c)
      \<and> map_sum id (propOf ''caseClassification'')
          (addLabInformation [Some ''s1'', Some ''s2'', Some ''s3'', Some ''s4''] []
             [(''de1'', ''Positive'')]
             (assoc ''caseClassification'' (Str ''CONFIRMED'')
                (Map.empty(''events'' \<mapsto> Events [])))) = Inr (Str c))"
proof -
  have h: "propOf ''events'' (Map.empty(''events'' \<mapsto> Events [])) = Events []"
    by (simp add: propOf_def)
  from h addLabInformation_caseClassification[OF h] show ?thesis by blast
qed


section \<open>Properties of the outbreak assignment\<close>

lemma findOutbreackForCase_indexed:
  "available locationID = Some bucket \<Longrightarrow>
   findOutbreackForCase available orgUnits locationID =
     Some (Inr (case bucket of [] \<Rightarrow> None | ob # obs \<Rightarrow> Some (ob_id ob)))"
  by (subst findOutbreackForCase.simps) simp

lemma findOutbreackForCase_parent:
  assumes "available locationID = None" and "parentOf orgUnits locationID = Some p"
  shows "findOutbreackForCase available orgUnits locationID =
         findOutbreackForCase available orgUnits p"
proof -
  from assms(2) obtain u where u: "find (\<lambda>u. ou_id u = locationID) orgUnits = Some u"
    and pu: "parent u = Some p"
    by (auto simp: parentOf_def split: option.splits)
  show ?thesis
    by (subst findOutbreackForCase.simps) (simp add: assms(1) u pu)
qed

lemma reduceByAppend_foldl:
  "foldl (\<lambda>acc el. acc(keyFn el \<mapsto> (case acc (keyFn el) of None \<Rightarrow> [] | Some b \<Rightarrow> b) @ [el]))
     acc xs k
   = (if filter (\<lambda>x. keyFn x = k) xs = [] then acc k
      else Some ((case acc k of None \<Rightarrow> [] | Some b \<Rightarrow> b) @ filter (\<lambda>x. keyFn x = k) xs))"
  by (induction xs arbitrary: acc) auto

text \<open>The bucket of a key holds the elements with that key, in the order of the input.\<close>

lemma reduceByAppend_lookup:
  "reduceByAppend keyFn xs k =
     (if filter (\<lambda>x. keyFn x = k) xs = [] then None else Some (filter (\<lambda>x. keyFn x = k) xs))"
  by (simp add: reduceByAppend_def reduceByAppend_foldl)

lemma find_filter: "find P xs = Some x \<Longrightarrow> \<exists>ys. filter P xs = x # ys"
  by (induction xs) (auto split: if_splits)

text \<open>
  C5. For every organisation-unit list and every starting id one of whose ancestors along
  the parent links (or the id itself) is a key of the outbreak-location index,
  \<open>findOutbreackForCase\<close> returns, and returns a value, not an exception. This holds
  for every list in which the indexed ancestor is reached, the acyclic rooted trees among
  them. The result is a function of the index, the list and the id alone, so resolving
  the same id twice against the same index and list gives the same outbreak id.
\<close>

theorem findOutbreackForCase_returns:
  assumes "nthAncestor orgUnits locationID n = Some a" and "available a = Some bucket"
  shows "\<exists>found. findOutbreackForCase available orgUnits locationID = Some (Inr found)"
  using assms
proof (induction n arbitrary: locationID)
  case 0
  then show ?case by (simp add: findOutbreackForCase_indexed)
next
  case (Suc n)
  show ?case
  proof (cases "available locationID")
    case (Some b)
    then show ?thesis by (simp add: findOutbreackForCase_indexed)
  next
    case None
    from Suc.prems(1) obtain p where p: "parentOf orgUnits locationID = Some p"
      and anc: "nthAncestor orgUnits p n = Some a"
      by (auto split: option.splits)
    have "findOutbreackForCase available orgUnits locationID =
          findOutbreackForCase available orgUnits p"
      using None p by (rule findOutbreackForCase_parent)
    with Suc.IH[OF anc Suc.prems(2)] show ?thesis by simp
  qed
qed

theorem findOutbreackForCase_returns_witness:
  "nthAncestor
      [\<lparr>ou_id = ''U1'', parent = None\<rparr>, \<lparr>ou_id = ''U2'', parent = Some ''U1''\<rparr>,
       \<lparr>ou_id = ''U3'', parent = Some ''U2''\<rparr>] ''U3'' (Suc (Suc 0)) = Some ''U1''
   \<and> locationsAvaliable [\<lparr>ob_id = ''O1'', locationIds = [''U1'']\<rparr>] ''U1''
       = Some [\<lparr>ob_id = ''O1'', locationIds = [''U1'']\<rparr>]
   \<and> (\<exists>found. findOutbreackForCase
         (locationsAvaliable [\<lparr>ob_id = ''O1'', locationIds = [''U1'']\<rparr>])
         [\<lparr>ou_id = ''U1'', parent = None\<rparr>, \<lparr>ou_id = ''U2'', parent = Some ''U1''\<rparr>,
          \<lparr>ou_id = ''U3'', parent = Some ''U2''\<rparr>] ''U3'' = Some (Inr found))"
proof -
  have h1: "nthAncestor
      [\<lparr>ou_id = ''U1'', parent = None\<rparr>, \<lparr>ou_id = ''U2'', parent = Some ''U1''\<rparr>,
       \<lparr>ou_id = ''U3'', parent = Some ''U2''\<rparr>] ''U3'' (Suc (Suc 0)) = Some ''U1''"
    by (simp add: parentOf_def)
  have h2: "locationsAvaliable [\<lparr>ob_id = ''O1'', locationIds = [''U1'']\<rparr>] ''U1''
       = Some [\<lparr>ob_id = ''O1'', locationIds = [''U1'']\<rparr>]"
    by (simp add: locationsAvaliable_def reduceByAppend_def firstLocationKey_def)
  from h1 h2
    findOutbreackForCase_returns
      [of "[\<lparr>ou_id = ''U1'', parent = None\<rparr>, \<lparr>ou_id = ''U2'', parent = Some ''U1''\<rparr>,
            \<lparr>ou_id = ''U3'', parent = Some ''U2''\<rparr>]"
          "''U3''" "Suc (Suc 0)" "''U1''"
          "locationsAvaliable [\<lparr>ob_id = ''O1'', locationIds = [''U1'']\<rparr>]"
          "[\<lparr>ob_id = ''O1'', locationIds = [''U1'']\<rparr>]"]
  show ?thesis by blast
qed

text \<open>
  The example of the specification: \<open>U3\<close> under \<open>U2\<close> under \<open>U1\<close>, one outbreak \<open>O1\<close> located
  at \<open>U1\<close>; a tracked entity of \<open>U3\<close> is assigned \<open>O1\<close>.
\<close>

lemma assignOutbreak_example:
  "assignOutbreak [\<lparr>ob_id = ''O1'', locationIds = [''U1'']\<rparr>]
     [\<lparr>ou_id = ''U1'', parent = None\<rparr>, \<lparr>ou_id = ''U2'', parent = Some ''U1''\<rparr>,
      \<lparr>ou_id = ''U3'', parent = Some ''U2''\<rparr>]
     (Map.empty(''orgUnit'' \<mapsto> Str ''U3''))
   = Some (Inr (Map.empty(''orgUnit'' \<mapsto> Str ''U3'', ''outbreak'' \<mapsto> Str ''O1'')))"
proof -
  let ?av = "locationsAvaliable [\<lparr>ob_id = ''O1'', locationIds = [''U1'']\<rparr>]"
  let ?ous = "[\<lparr>ou_id = ''U1'', parent = None\<rparr>, \<lparr>ou_id = ''U2'', parent = Some ''U1''\<rparr>,
      \<lparr>ou_id = ''U3'', parent = Some ''U2''\<rparr>]"
  have av: "?av ''U1'' = Some [\<lparr>ob_id = ''O1'', locationIds = [''U1'']\<rparr>]"
    "?av ''U2'' = None" "?av ''U3'' = None"
    by (simp_all add: locationsAvaliable_def reduceByAppend_def firstLocationKey_def)
  have "findOutbreackForCase ?av ?ous ''U3'' = findOutbreackForCase ?av ?ous ''U2''"
    by (rule findOutbreackForCase_parent) (simp_all add: av parentOf_def)
  also have "\<dots> = findOutbreackForCase ?av ?ous ''U1''"
    by (rule findOutbreackForCase_parent) (simp_all add: av parentOf_def)
  also have "\<dots> = Some (Inr (Some ''O1''))"
    using av(1)
      findOutbreackForCase_indexed
        [of ?av "''U1''" "[\<lparr>ob_id = ''O1'', locationIds = [''U1'']\<rparr>]" ?ous]
    by simp
  finally show ?thesis
    by (simp add: assignOutbreak_def propOf_def assoc_def)
qed

text \<open>
  C6. When the id is itself a key of the index, \<open>findOutbreackForCase\<close> returns the id of
  the first outbreak of that key's bucket, whatever the organisation-unit list (the empty
  list too, on which a parent lookup would raise): no parent is looked up. With the index
  that \<open>assignOutbreak\<close> builds, the outbreak that wins is the first outbreak of the
  outbreak list whose first location id is the key.
\<close>

theorem findOutbreackForCase_key_first_outbreak:
  "(available locationID = Some bucket \<longrightarrow>
      findOutbreackForCase available orgUnits locationID =
        Some (Inr (case bucket of [] \<Rightarrow> None | ob # obs \<Rightarrow> Some (ob_id ob))))
   \<and> (find (\<lambda>ob. firstLocationKey ob = locationID) outbreaks = Some first \<longrightarrow>
      findOutbreackForCase (locationsAvaliable outbreaks) orgUnits locationID =
        Some (Inr (Some (ob_id first))))"
proof (intro conjI impI)
  assume "available locationID = Some bucket"
  then show "findOutbreackForCase available orgUnits locationID =
        Some (Inr (case bucket of [] \<Rightarrow> None | ob # obs \<Rightarrow> Some (ob_id ob)))"
    by (rule findOutbreackForCase_indexed)
next
  assume "find (\<lambda>ob. firstLocationKey ob = locationID) outbreaks = Some first"
  then obtain ys where "filter (\<lambda>ob. firstLocationKey ob = locationID) outbreaks = first # ys"
    using find_filter by fastforce
  then have "locationsAvaliable outbreaks locationID = Some (first # ys)"
    by (simp add: locationsAvaliable_def reduceByAppend_lookup)
  then show "findOutbreackForCase (locationsAvaliable outbreaks) orgUnits locationID =
        Some (Inr (Some (ob_id first)))"
    by (simp add: findOutbreackForCase_indexed)
qed

theorem findOutbreackForCase_key_first_outbreak_witness:
  "(Map.empty(''U1'' \<mapsto> [\<lparr>ob_id = ''O1'', locationIds = [''U1'', ''U7'']\<rparr>,
                            \<lparr>ob_id = ''O2'', locationIds = [''U1'']\<rparr>])) ''U1''
     = Some [\<lparr>ob_id = ''O1'', locationIds = [''U1'', ''U7'']\<rparr>,
             \<lparr>ob_id = ''O2'', locationIds = [''U1'']\<rparr>]
   \<and> findOutbreackForCase
       (Map.empty(''U1'' \<mapsto> [\<lparr>ob_id = ''O1'', locationIds = [''U1'', ''U7'']\<rparr>,
                               \<lparr>ob_id = ''O2'', locationIds = [''U1'']\<rparr>])) [] ''U1''
     = Some (Inr (Some ''O1''))
   \<and> find (\<lambda>ob. firstLocationKey ob = ''U1'')
       [\<lparr>ob_id = ''O0'', locationIds = [''U7'', ''U1'']\<rparr>,
        \<lparr>ob_id = ''O1'', locationIds = [''U1'', ''U7'']\<rparr>,
        \<lparr>ob_id = ''O2'', locationIds = [''U1'']\<rparr>]
     = Some \<lparr>ob_id = ''O1'', locationIds = [''U1'', ''U7'']\<rparr>
   \<and> findOutbreackForCase
       (locationsAvaliable
          [\<lparr>ob_id = ''O0'', locationIds = [''U7'', ''U1'']\<rparr>,
           \<lparr>ob_id = ''O1'', locationIds = [''U1'', ''U7'']\<rparr>,
           \<lparr>ob_id = ''O2'', locationIds = [''U1'']\<rparr>]) [] ''U1''
     = Some (Inr (Some ''O1''))"
  using findOutbreackForCase_key_first_outbreak
    [of "Map.empty(''U1'' \<mapsto> [\<lparr>ob_id = ''O1'', locationIds = [''U1'', ''U7'']\<rparr>,
                                 \<lparr>ob_id = ''O2'', locationIds = [''U1'']\<rparr>])"
        "''U1''"
        "[\<lparr>ob_id = ''O1'', locationIds = [''U1'', ''U7'']\<rparr>,
          \<lparr>ob_id = ''O2'', locationIds = [''U1'']\<rparr>]"
        "[]"
        "[\<lparr>ob_id = ''O0'', locationIds = [''U7'', ''U1'']\<rparr>,
          \<lparr>ob_id = ''O1'', locationIds = [''U1'', ''U7'']\<rparr>,
          \<lparr>ob_id = ''O2'', locationIds = [''U1'']\<rparr>]"
        "\<lparr>ob_id = ''O1'', locationIds = [''U1'', ''U7'']\<rparr>"]
  by (simp add: firstLocationKey_def)

section \<open>Properties of the sending of the cases\<close>

lemma activated_append: "activated (xs @ ys) = activated xs \<union> activated ys"
  by (auto simp: activated_def)

lemma activated_Cons: "activated (x # xs) = activated [x] \<union> activated xs"
  by (auto simp: activated_def)

lemma createsFollowActivation_append:
  "createsFollowActivation A (xs @ ys) =
     (createsFollowActivation A xs \<and> createsFollowActivation (A \<union> activated xs) ys)"
proof (induction xs arbitrary: A)
  case Nil
  then show ?case by (simp add: activated_def)
next
  case (Cons x xs)
  have "A \<union> activated [x] \<union> activated xs = A \<union> activated (x # xs)"
    using activated_Cons[of x xs] by auto
  with Cons show ?case by auto
qed

lemma createsFollowActivation_creates:
  "ob \<in> A \<Longrightarrow> createsFollowActivation A (map (\<lambda>c. Issued (CreateOutbreakCase ob (f c))) cs)"
  by (induction cs arbitrary: A) (auto simp: activated_def)

lemma sendOutbreaks_ordered:
  "createsFollowActivation {} tr \<Longrightarrow>
   createsFollowActivation {} (sendOutbreaks allPromises godata usr outbreaks ks tr)"
proof (induction ks arbitrary: tr)
  case Nil
  then show ?case by simp
next
  case (Cons k ks)
  let ?act = "ActivateOutbreakForUser (userId usr) k"
  let ?tr1 = "tr @ [Issued ?act]"
  let ?tr2 = "?tr1 @ [Completed ?act]"
  have t1: "createsFollowActivation {} ?tr1"
    using Cons.prems by (simp add: createsFollowActivation_append)
  have t2: "createsFollowActivation {} ?tr2"
    using t1 by (simp add: createsFollowActivation_append)
  have t3: "createsFollowActivation {} (?tr2 @ map (\<lambda>c. Issued (CreateOutbreakCase k (f c))) cs)" for f cs
  proof -
    have "k \<in> {} \<union> activated ?tr2" by (auto simp: activated_def)
    then show ?thesis
      using t2 createsFollowActivation_creates createsFollowActivation_append by blast
  qed
  show ?case
    using t1 t2 t3 Cons.IH
    by (auto simp: Let_def split: promise.splits option.splits simp del: append_assoc)
qed

lemma sendOutbreaks_extends:
  "\<exists>ext. sendOutbreaks allPromises godata usr outbreaks ks tr = tr @ ext \<and> Issued Login \<notin> set ext"
proof (induction ks arbitrary: tr)
  case Nil
  then show ?case by simp
next
  case (Cons k ks)
  have step: "\<exists>ext. sendOutbreaks allPromises godata usr outbreaks ks (tr @ mid) = tr @ ext
                 \<and> Issued Login \<notin> set ext" if "Issued Login \<notin> set mid" for mid
  proof -
    from Cons.IH[of "tr @ mid"] obtain ext where
      "sendOutbreaks allPromises godata usr outbreaks ks (tr @ mid) = (tr @ mid) @ ext"
      "Issued Login \<notin> set ext" by blast
    with that show ?thesis by (intro exI[of _ "mid @ ext"]) auto
  qed
  show ?case
    by (auto simp: Let_def intro!: step split: promise.splits option.splits)
qed

lemma ordered_prefix:
  assumes "createsFollowActivation {} tr" and "tr = pre @ Issued (CreateOutbreakCase ob c) # post"
  shows "\<exists>uid. Completed (ActivateOutbreakForUser uid ob) \<in> set pre"
proof -
  from assms have "createsFollowActivation ({} \<union> activated pre) (Issued (CreateOutbreakCase ob c) # post)"
    by (simp add: createsFollowActivation_append)
  then have "ob \<in> activated pre" by simp
  then show ?thesis by (simp add: activated_def)
qed

text \<open>
  C4. In every run of \<open>sendCasesToGoData\<close>, whatever the client answers, the order in
  which the keys are enumerated and the way the promises of a group are combined: every
  \<open>createOutbreakCase\<close> call for an outbreak comes after the completion of an
  \<open>activateOutbreakForUser\<close> call for that outbreak; \<open>login\<close> is the first call and is
  called once; and every activation is called after the login has completed.
\<close>

theorem sendCasesToGoData_order:
  "(\<forall>pre ob c post.
      sendCasesToGoData keyOrder allPromises godata cases
        = pre @ Issued (CreateOutbreakCase ob c) # post
      \<longrightarrow> (\<exists>uid. Completed (ActivateOutbreakForUser uid ob) \<in> set pre))
   \<and> (\<exists>rest. sendCasesToGoData keyOrder allPromises godata cases = Issued Login # rest
             \<and> Issued Login \<notin> set rest)
   \<and> (\<forall>pre uid ob post.
      sendCasesToGoData keyOrder allPromises godata cases
        = pre @ Issued (ActivateOutbreakForUser uid ob) # post
      \<longrightarrow> Completed Login \<in> set pre)"
proof (cases "login godata [Issued Login]")
  case Rejected
  then have tr: "sendCasesToGoData keyOrder allPromises godata cases = [Issued Login]"
    by (simp add: sendCasesToGoData_def)
  show ?thesis
    unfolding tr by (auto simp: Cons_eq_append_conv)
next
  case (Fulfilled usr)
  let ?tr = "sendCasesToGoData keyOrder allPromises godata cases"
  obtain ks outbreaks where tr: "?tr = sendOutbreaks allPromises godata usr outbreaks ks
        [Issued Login, Completed Login]"
    using Fulfilled by (simp add: sendCasesToGoData_def Let_def)
  have ord: "createsFollowActivation {} ?tr"
    unfolding tr by (rule sendOutbreaks_ordered) (simp add: activated_def)
  obtain ext where ext: "?tr = [Issued Login, Completed Login] @ ext" "Issued Login \<notin> set ext"
    unfolding tr using sendOutbreaks_extends by blast
  have a: "\<forall>pre ob c post. ?tr = pre @ Issued (CreateOutbreakCase ob c) # post
      \<longrightarrow> (\<exists>uid. Completed (ActivateOutbreakForUser uid ob) \<in> set pre)"
    using ord ordered_prefix by blast
  have b: "\<exists>rest. ?tr = Issued Login # rest \<and> Issued Login \<notin> set rest"
    using ext by simp
  have c: "\<forall>pre uid ob post. ?tr = pre @ Issued (ActivateOutbreakForUser uid ob) # post
      \<longrightarrow> Completed Login \<in> set pre"
    unfolding ext(1) by (auto simp: Cons_eq_append_conv)
  from a b c show ?thesis by blast
qed

theorem sendCasesToGoData_order_witness:
  "sendCasesToGoData (\<lambda>ks. ks) (\<lambda>ps. Fulfilled ())
      \<lparr>login = (\<lambda>tr. Fulfilled \<lparr>userId = ''u1''\<rparr>),
       activateOutbreakForUser = (\<lambda>tr uid ob. Fulfilled ()),
       createOutbreakCase = (\<lambda>tr ob c. Fulfilled ())\<rparr>
      [Map.empty(''outbreak'' \<mapsto> Str ''o1'', ''firstName'' \<mapsto> Str ''Ada'')]
    = [Issued Login, Completed Login,
       Issued (ActivateOutbreakForUser ''u1'' ''o1''),
       Completed (ActivateOutbreakForUser ''u1'' ''o1'')]
      @ Issued (CreateOutbreakCase ''o1'' (Map.empty(''firstName'' \<mapsto> Str ''Ada''))) # []
   \<and> (\<exists>uid. Completed (ActivateOutbreakForUser uid ''o1'') \<in> set
         [Issued Login, Completed Login,
          Issued (ActivateOutbreakForUser ''u1'' ''o1''),
          Completed (ActivateOutbreakForUser ''u1'' ''o1'')])"
proof -
  let ?g = "\<lparr>login = (\<lambda>tr. Fulfilled \<lparr>userId = ''u1''\<rparr>),
       activateOutbreakForUser = (\<lambda>tr uid ob. Fulfilled ()),
       createOutbreakCase = (\<lambda>tr ob c. Fulfilled ())\<rparr>"
  let ?cases = "[Map.empty(''outbreak'' \<mapsto> Str ''o1'', ''firstName'' \<mapsto> Str ''Ada'')]"
  have d: "dissoc ''outbreak''
             (Map.empty(''outbreak'' \<mapsto> Str ''o1'', ''firstName'' \<mapsto> Str ''Ada''))
           = Map.empty(''firstName'' \<mapsto> Str ''Ada'')"
    by (auto simp: dissoc_def fun_eq_iff)
  have run: "sendCasesToGoData (\<lambda>ks. ks) (\<lambda>ps. Fulfilled ()) ?g ?cases
    = [Issued Login, Completed Login,
       Issued (ActivateOutbreakForUser ''u1'' ''o1''),
       Completed (ActivateOutbreakForUser ''u1'' ''o1'')]
      @ Issued (CreateOutbreakCase ''o1'' (Map.empty(''firstName'' \<mapsto> Str ''Ada''))) # []"
    by (simp add: sendCasesToGoData_def reduceByAppend_def propOf_def Let_def d)
  from sendCasesToGoData_order[of "\<lambda>ks. ks" "\<lambda>ps. Fulfilled ()" ?g ?cases] run
  show ?thesis by blast
qed

end
